theory Spec2Isabelle
  imports Complex_Main "HOL-Library.Log_Nat"
begin

section \<open>Earthquake ripple visualizer: the ripple lifecycle of script.js\<close>

text \<open>
  The script computes with JavaScript numbers, which are IEEE 754 doubles. Two models of
  them are used here.

  Where a property is about the structure of the code (which ripple is visited, removed or
  appended, which branch a call takes) or about the formulas as such, numbers are exact
  reals: \<open>+\<close>, \<open>-\<close>, \<open>*\<close> and \<open>/\<close> are the field operations, \<open>Math.max\<close> and
  \<open>Math.min\<close> are \<open>max\<close> and \<open>min\<close>, and the remainder operator \<open>%\<close> is the
  remainder of the division truncated towards zero.

  Where the truth of a property depends on rounding (the round trip of the two projections,
  and the number of frames a ripple lives), every arithmetic operation is followed by the
  rounding \<open>rd\<close> to the nearest number with a significand of 53 bits, ties to the even
  significand. The functions of this model carry the suffix \<open>D\<close>, except \<open>toScreen\<close> and
  \<open>toBase\<close>, which exist in this model only.

  Outside both models: \<open>NaN\<close>, the infinities, and a division by zero, which gives one of
  them. The only divisors in the modelled code are the constants 6 and 700, the canvas
  width, and the largest radius of a ripple, which is at least 80 for every ripple the
  script creates (lemmas \<open>newRipple_bounds\<close> and \<open>newRippleD_bounds\<close>).
\<close>

subsection \<open>Data\<close>

text \<open>
  The object pushed by \<open>createRippleFromWorld\<close> (script.js, lines 120 to 130):
  \<open>{ baseX, baseY, radius, maxRadius, speed, lineWidth, baseColor, opacity, fromAuto }\<close>.
\<close>

record ripple =
  baseX :: real
  baseY :: real
  radius :: real
  maxRadius :: real
  speed :: real
  lineWidth :: real
  baseColor :: string
  opacity :: real
  fromAuto :: bool

text \<open>
  The object built for each feature of the feed (script.js, line 158):
  \<open>{ lon, lat, depth, mag, place, time, baseX, baseY }\<close>. The two base coordinates are
  named \<open>quakeBaseX\<close> and \<open>quakeBaseY\<close> here, since a ripple has fields of the same name.
\<close>

record quake =
  lon :: real
  lat :: real
  depth :: real
  mag :: real
  place :: string
  time :: real
  quakeBaseX :: real
  quakeBaseY :: real

subsection \<open>Rounding to a double\<close>





subsection \<open>Spawning a ripple\<close>

text \<open>
  \<open>createRippleFromWorld\<close> (script.js, lines 94 to 131). The global array \<open>ripples\<close> is
  passed in and returned; \<open>ripples.push\<close> appends at the end.
\<close>

definition newRipple :: "real \<Rightarrow> real \<Rightarrow> real \<Rightarrow> real \<Rightarrow> real \<Rightarrow> bool \<Rightarrow> ripple" where
  "newRipple bX bY magnitude depthArg speedMultiplier auto =
     (let magC = max 3 (min 9 magnitude);
          depthKm = max 0 (min 700 depthArg);
          magFactor = (magC - 3) / 6;
          depthFactor = 1 - depthKm / 700;
          baseMaxRadius = 80;
          extraRadius = 220;
          maxRadiusV = baseMaxRadius + extraRadius * magFactor * (0.4 + 0.6 * depthFactor);
          baseSpeed = 1.1;
          rippleSpeed = baseSpeed * speedMultiplier * (0.6 + 0.8 * magFactor);
          lineWidthV = 2 + 3 * magFactor;
          color = (if auto then ''#4ade80'' else ''#22d3ee'')
      in \<lparr> baseX = bX, baseY = bY, radius = 0, maxRadius = maxRadiusV,
           speed = rippleSpeed, lineWidth = lineWidthV, baseColor = color,
           opacity = 1, fromAuto = auto \<rparr>)"

definition createRippleFromWorld ::
  "real \<Rightarrow> real \<Rightarrow> real \<Rightarrow> real \<Rightarrow> real \<Rightarrow> bool \<Rightarrow> ripple list \<Rightarrow> ripple list" where
  "createRippleFromWorld bX bY magnitude depthArg speedMultiplier auto ripples =
     ripples @ [newRipple bX bY magnitude depthArg speedMultiplier auto]"



subsection \<open>The looping map offset and the two projections\<close>

text \<open>
  The remainder operator \<open>%\<close> of JavaScript on numbers: the quotient is truncated towards
  zero, so the result has the sign of the dividend. (For a zero divisor JavaScript gives
  \<open>NaN\<close>; the properties below are about a positive canvas width.)
\<close>

definition jsTrunc :: "real \<Rightarrow> int" where
  "jsTrunc x = (if x < 0 then \<lceil>x\<rceil> else \<lfloor>x\<rfloor>)"

definition jsRem :: "real \<Rightarrow> real \<Rightarrow> real" where
  "jsRem a b = a - b * of_int (jsTrunc (a / b))"

text \<open>
  \<open>normalizeOffset\<close> (script.js, lines 63 to 66) reads the global \<open>mapOffsetX\<close> and
  \<open>canvas.width\<close>; both are parameters here.
\<close>

definition normalizeOffset :: "real \<Rightarrow> real \<Rightarrow> real" where
  "normalizeOffset mapOffsetX w = jsRem (jsRem mapOffsetX w + w) w"



subsection \<open>The automatic ripples\<close>

text \<open>
  The globals written by the script: the array \<open>ripples\<close> (line 89), \<open>autoRippleIndex\<close>
  and \<open>lastAutoRippleTime\<close> (lines 261 and 262), both 0 at the start.
\<close>

record world =
  ripples :: "ripple list"
  autoRippleIndex :: nat
  lastAutoRippleTime :: real

definition initialWorld :: world where
  "initialWorld = \<lparr> ripples = [], autoRippleIndex = 0, lastAutoRippleTime = 0 \<rparr>"

definition AUTO_RIPPLE_INTERVAL :: real where
  "AUTO_RIPPLE_INTERVAL = 2000"

text \<open>
  \<open>maybeSpawnAutoRipple\<close> (script.js, lines 265 to 282). What it reads from outside is a
  parameter: the state of the checkbox \<open>autoRipplesCheckbox.checked\<close>, the number in the
  speed slider and the list \<open>recentQuakes\<close>. The index taken modulo the length of a
  non-empty list is in range.
\<close>

definition maybeSpawnAutoRipple :: "real \<Rightarrow> bool \<Rightarrow> real \<Rightarrow> quake list \<Rightarrow> world \<Rightarrow> world" where
  "maybeSpawnAutoRipple timestamp checked speedMult recentQuakes w =
     (if \<not> checked \<or> length recentQuakes = 0 then w
      else if timestamp - lastAutoRippleTime w < AUTO_RIPPLE_INTERVAL then w
      else
        (let q = recentQuakes ! (autoRippleIndex w mod length recentQuakes)
         in w \<lparr> autoRippleIndex := autoRippleIndex w + 1,
                lastAutoRippleTime := timestamp,
                ripples := createRippleFromWorld (quakeBaseX q) (quakeBaseY q) (mag q) (depth q)
                             speedMult True (ripples w) \<rparr>))"

text \<open>
  A sequence of calls, one per animation frame: each call has its own timestamp, checkbox
  state, slider value and quake list. \<open>autoTicks\<close> runs the calls; \<open>spawnLog\<close> observes
  them and lists, for every call that moved the cursor, the timestamp of the call and the
  cursor before it.
\<close>

type_synonym tick = "real \<times> bool \<times> real \<times> quake list"

fun autoTicks :: "tick list \<Rightarrow> world \<Rightarrow> world" where
  "autoTicks [] w = w"
| "autoTicks ((t, checked, speedMult, qs) # ticks) w =
     autoTicks ticks (maybeSpawnAutoRipple t checked speedMult qs w)"

fun spawnLog :: "tick list \<Rightarrow> world \<Rightarrow> (real \<times> nat) list" where
  "spawnLog [] w = []"
| "spawnLog ((t, checked, speedMult, qs) # ticks) w =
     (let w' = maybeSpawnAutoRipple t checked speedMult qs w
      in (if autoRippleIndex w' = autoRippleIndex w then [] else [(t, autoRippleIndex w)])
         @ spawnLog ticks w')"

subsection \<open>The ripple loop of a frame\<close>

text \<open>
  The body of the loop in \<open>drawFrame\<close> (script.js, lines 337 to 345): the ripple grows by
  its speed, the opacity is recomputed, and the test decides whether it is spliced out.
\<close>

definition advanceRipple :: "ripple \<Rightarrow> ripple" where
  "advanceRipple r =
     (let r1 = r \<lparr> radius := radius r + speed r \<rparr>;
          t = radius r1 / maxRadius r1
      in r1 \<lparr> opacity := 1 - t \<rparr>)"

definition expired :: "ripple \<Rightarrow> bool" where
  "expired r = (radius r \<ge> maxRadius r \<or> opacity r \<le> 0)"

text \<open>\<open>ripples.splice(i, 1)\<close> removes the element at index \<open>i\<close>.\<close>

definition splice1 :: "'a list \<Rightarrow> nat \<Rightarrow> 'a list" where
  "splice1 xs i = take i xs @ drop (Suc i) xs"

datatype js_error = TypeError

text \<open>
  The loop \<open>for (let i = ripples.length - 1; i >= 0; i--)\<close> (lines 336 to 368). The first
  argument is \<open>i + 1\<close>, so that the loop ends at 0. Reading \<open>ripples[i]\<close> beyond the end
  of the array gives \<open>undefined\<close>, and the next statement then throws a \<open>TypeError\<close>.
  The second component of the state is not in the script: it records the indices at which
  the body ran, in the order of the run. The drawing statements of the body (lines 347 to
  367) only read the ripple and write to the canvas; they are left out.
\<close>

fun rippleLoop :: "nat \<Rightarrow> ripple list \<times> nat list \<Rightarrow> js_error + ripple list \<times> nat list" where
  "rippleLoop 0 st = Inr st"
| "rippleLoop (Suc i) (rs, visited) =
     (if i \<ge> length rs then Inl TypeError
      else
        (let r = advanceRipple (rs ! i);
             rs1 = rs[i := r]
         in if expired r then rippleLoop i (splice1 rs1 i, visited @ [i])
            else rippleLoop i (rs1, visited @ [i])))"

text \<open>The store after the loop of one frame, started as the script starts it.\<close>

definition advanceAndPrune :: "ripple list \<Rightarrow> js_error + ripple list" where
  "advanceAndPrune rs =
     (case rippleLoop (length rs) (rs, []) of Inl e \<Rightarrow> Inl e | Inr (rs', visited) \<Rightarrow> Inr rs')"






text \<open>
  Any interleaving of calls of \<open>createRippleFromWorld\<close> (from the click handler or from
  \<open>maybeSpawnAutoRipple\<close>) and completed ripple loops, run from a given store.
\<close>

datatype action = Spawn real real real real real bool | Frame

fun run :: "action list \<Rightarrow> ripple list \<Rightarrow> js_error + ripple list" where
  "run [] rs = Inr rs"
| "run (Spawn bX bY m d s a # acts) rs = run acts (createRippleFromWorld bX bY m d s a rs)"
| "run (Frame # acts) rs =
     (case advanceAndPrune rs of Inl e \<Rightarrow> Inl e | Inr rs' \<Rightarrow> run acts rs')"

text \<open>
  Three quakes for the worked instances below, on a canvas 800 wide and 400 high:
  base coordinates as \<open>fetchRecentQuakes\<close> computes them (lines 155 and 156).
\<close>

definition exampleQuakes :: "quake list" where
  "exampleQuakes =
     [\<lparr> lon = -90, lat = 45, depth = 10, mag = 3, place = ''west'', time = 1,
        quakeBaseX = 200, quakeBaseY = 100 \<rparr>,
      \<lparr> lon = 0, lat = 0, depth = 350, mag = 6, place = ''middle'', time = 2,
        quakeBaseX = 400, quakeBaseY = 200 \<rparr>,
      \<lparr> lon = 90, lat = -45, depth = 700, mag = 9, place = ''east'', time = 3,
        quakeBaseX = 600, quakeBaseY = 300 \<rparr>]"

section \<open>Properties\<close>

subsection \<open>Auxiliary facts\<close>

text \<open>The remainder of a dividend that is not negative, by a positive divisor.\<close>

lemma jsRem_nonneg:
  assumes "0 \<le> a" "0 < w"
  shows "jsRem a w = a - w * of_int \<lfloor>a / w\<rfloor>" "0 \<le> jsRem a w" "jsRem a w < w"
proof -
  have q: "0 \<le> a / w" using assms by simp
  show e: "jsRem a w = a - w * of_int \<lfloor>a / w\<rfloor>"
    using q by (simp add: jsRem_def jsTrunc_def)
  have "w * of_int \<lfloor>a / w\<rfloor> \<le> a"
    using floor_divide_lower [OF assms(2), of a] by (simp add: mult.commute)
  then show "0 \<le> jsRem a w" by (simp add: e)
  have "a < w * (of_int \<lfloor>a / w\<rfloor> + 1)"
    using floor_divide_upper [OF assms(2), of a] by (simp add: mult.commute)
  then show "jsRem a w < w" by (simp add: e algebra_simps)
qed

text \<open>The remainder of a negative dividend is negative or zero, and above \<open>- w\<close>.\<close>

lemma jsRem_neg:
  assumes "a < 0" "0 < w"
  shows "jsRem a w = a - w * of_int \<lceil>a / w\<rceil>" "- w < jsRem a w" "jsRem a w \<le> 0"
proof -
  have q: "a / w < 0" using assms by (simp add: divide_neg_pos)
  show e: "jsRem a w = a - w * of_int \<lceil>a / w\<rceil>"
    using q by (simp add: jsRem_def jsTrunc_def)
  have "a \<le> w * of_int \<lceil>a / w\<rceil>"
    using ceiling_divide_upper [OF assms(2), of a] by (simp add: mult.commute)
  then show "jsRem a w \<le> 0" by (simp add: e)
  have "w * of_int \<lceil>a / w\<rceil> < a + w"
    using ceiling_divide_lower [OF assms(2), of a] by (simp add: algebra_simps)
  then show "- w < jsRem a w" by (simp add: e)
qed

lemma normalizeOffset_range:
  assumes "0 < w"
  shows "0 \<le> normalizeOffset x w \<and> normalizeOffset x w < w"
proof -
  have "0 \<le> jsRem x w + w"
  proof (cases "x < 0")
    case True
    then show ?thesis using jsRem_neg(2) [OF True assms] by simp
  next
    case False
    then show ?thesis using jsRem_nonneg(2) [of x w] assms by simp
  qed
  then show ?thesis
    unfolding normalizeOffset_def using jsRem_nonneg(2,3) [of "jsRem x w + w" w] assms by simp
qed

text \<open>
  Both remainders subtract a whole multiple of the width, so the result is the offset
  minus a whole multiple of the width, and the range fixes which one: the floor.
\<close>

lemma normalizeOffset_floor:
  assumes "0 < w"
  shows "normalizeOffset x w = x - w * of_int \<lfloor>x / w\<rfloor>"
proof -
  define k where "k = jsTrunc (x / w) - 1 + jsTrunc ((jsRem x w + w) / w)"
  have e: "normalizeOffset x w = x - w * of_int k"
    by (simp add: normalizeOffset_def jsRem_def [of _ w] k_def algebra_simps)
  from normalizeOffset_range [OF assms, of x]
  have "0 \<le> x - w * of_int k" "x - w * of_int k < w" by (simp_all add: e)
  then have "of_int k \<le> x / w" "x / w < of_int k + 1"
    using assms by (simp_all add: pos_le_divide_eq pos_divide_less_eq algebra_simps)
  then have "\<lfloor>x / w\<rfloor> = k" by (rule floor_unique)
  then show ?thesis by (simp add: e)
qed

text \<open>
  The loop started at \<open>n\<close> below the length has handled the first \<open>n\<close> elements when it
  ends: the elements behind them are as they were, and the indices \<open>n - 1\<close> down to 0 have
  been visited in this order. The \<open>TypeError\<close> branch is never taken.
\<close>

lemma rippleLoop_prefix:
  "n \<le> length rs \<Longrightarrow>
   rippleLoop n (rs, vis) =
     Inr (filter (\<lambda>r. \<not> expired r) (map advanceRipple (take n rs)) @ drop n rs,
          vis @ rev [0..<n])"
proof (induction n arbitrary: rs vis)
  case 0
  then show ?case by simp
next
  case (Suc n)
  then have lt: "n < length rs" by simp
  let ?r = "advanceRipple (rs ! n)"
  have tk: "take (Suc n) rs = take n rs @ [rs ! n]"
    using lt by (simp add: take_Suc_conv_app_nth)
  show ?case
  proof (cases "expired ?r")
    case True
    have len: "n \<le> length (splice1 (rs[n := ?r]) n)"
      using lt by (simp add: splice1_def)
    have a: "take n (splice1 (rs[n := ?r]) n) = take n rs"
      using lt by (simp add: splice1_def)
    have b: "drop n (splice1 (rs[n := ?r]) n) = drop (Suc n) rs"
      using lt by (simp add: splice1_def)
    show ?thesis
      using lt True Suc.IH [OF len, of "vis @ [n]"] by (simp add: Let_def a b tk)
  next
    case False
    have len: "n \<le> length (rs[n := ?r])" using lt by simp
    have b: "drop n (rs[n := ?r]) = ?r # drop (Suc n) rs"
      using lt by (simp add: Cons_nth_drop_Suc [symmetric])
    show ?thesis
      using lt False Suc.IH [OF len, of "vis @ [n]"] by (simp add: Let_def b tk)
  qed
qed

lemma advanceAndPrune_eq:
  "advanceAndPrune rs = Inr (filter (\<lambda>r. \<not> expired r) (map advanceRipple rs))"
  by (simp add: advanceAndPrune_def rippleLoop_prefix)

lemma advanceRipple_eq:
  "advanceRipple r =
     r \<lparr> radius := radius r + speed r, opacity := 1 - (radius r + speed r) / maxRadius r \<rparr>"
  by (simp add: advanceRipple_def Let_def)

text \<open>
  The calls of \<open>maybeSpawnAutoRipple\<close>: what one call does, and what a sequence of calls
  does to the cursor, to the time of the last spawn and to the store.
\<close>

lemma maybeSpawn_cases:
  "(\<not> checked \<or> qs = [] \<or> t - lastAutoRippleTime w < 2000 \<longrightarrow> maybeSpawnAutoRipple t checked sm qs w = w) \<and>
   (checked \<and> qs \<noteq> [] \<and> 2000 \<le> t - lastAutoRippleTime w \<longrightarrow>
      maybeSpawnAutoRipple t checked sm qs w =
        \<lparr> ripples = ripples w @
            [newRipple (quakeBaseX (qs ! (autoRippleIndex w mod length qs)))
                       (quakeBaseY (qs ! (autoRippleIndex w mod length qs)))
                       (mag (qs ! (autoRippleIndex w mod length qs)))
                       (depth (qs ! (autoRippleIndex w mod length qs))) sm True],
          autoRippleIndex = autoRippleIndex w + 1,
          lastAutoRippleTime = t \<rparr>)"
  by (auto simp add: maybeSpawnAutoRipple_def AUTO_RIPPLE_INTERVAL_def Let_def createRippleFromWorld_def)

lemma maybeSpawn_index:
  "autoRippleIndex (maybeSpawnAutoRipple t c sm qs w) = autoRippleIndex w \<or>
   (autoRippleIndex (maybeSpawnAutoRipple t c sm qs w) = Suc (autoRippleIndex w) \<and>
    lastAutoRippleTime (maybeSpawnAutoRipple t c sm qs w) = t \<and>
    2000 \<le> t - lastAutoRippleTime w)"
  by (auto simp add: maybeSpawnAutoRipple_def AUTO_RIPPLE_INTERVAL_def Let_def)

lemma maybeSpawn_same:
  "autoRippleIndex (maybeSpawnAutoRipple t c sm qs w) = autoRippleIndex w \<Longrightarrow>
   maybeSpawnAutoRipple t c sm qs w = w"
  by (auto simp add: maybeSpawnAutoRipple_def AUTO_RIPPLE_INTERVAL_def Let_def split: if_splits)

lemma spawnLog_spaced:
  "sorted_wrt (\<lambda>a b. 2000 \<le> b - a) (lastAutoRippleTime w # map fst (spawnLog ticks w))"
proof (induction ticks arbitrary: w)
  case Nil
  then show ?case by simp
next
  case (Cons tk ticks)
  obtain t c sm qs where tk: "tk = (t, c, sm, qs)" by (cases tk)
  let ?w = "maybeSpawnAutoRipple t c sm qs w"
  show ?case
  proof (cases "autoRippleIndex ?w = autoRippleIndex w")
    case True
    then have "?w = w" by (rule maybeSpawn_same)
    then show ?thesis using Cons.IH [of w] True by (simp add: tk)
  next
    case False
    then have l: "lastAutoRippleTime ?w = t" and g: "2000 \<le> t - lastAutoRippleTime w"
      using maybeSpawn_index [of t c sm qs w] by auto
    have ih: "sorted_wrt (\<lambda>a b. 2000 \<le> b - a) (t # map fst (spawnLog ticks ?w))"
      using Cons.IH [of ?w] by (simp add: l)
    then have "\<forall>b \<in> set (map fst (spawnLog ticks ?w)). 2000 \<le> b - lastAutoRippleTime w"
      using g by fastforce
    then show ?thesis using False ih g by (simp add: tk)
  qed
qed

lemma spawnLog_cursor:
  "map snd (spawnLog ticks w) = [autoRippleIndex w ..< autoRippleIndex w + length (spawnLog ticks w)]
   \<and> autoRippleIndex (autoTicks ticks w) = autoRippleIndex w + length (spawnLog ticks w)"
proof (induction ticks arbitrary: w)
  case Nil
  then show ?case by simp
next
  case (Cons tk ticks)
  obtain t c sm qs where tk: "tk = (t, c, sm, qs)" by (cases tk)
  let ?w = "maybeSpawnAutoRipple t c sm qs w"
  show ?case
  proof (cases "autoRippleIndex ?w = autoRippleIndex w")
    case True
    then show ?thesis using Cons.IH [of ?w] by (simp add: tk)
  next
    case False
    then have s: "autoRippleIndex ?w = Suc (autoRippleIndex w)"
      using maybeSpawn_index [of t c sm qs w] by auto
    have u: "[autoRippleIndex w ..< autoRippleIndex w + Suc (length (spawnLog ticks ?w))] =
        autoRippleIndex w # [Suc (autoRippleIndex w) ..< Suc (autoRippleIndex w) + length (spawnLog ticks ?w)]"
      by (subst upt_rec) (simp del: upt_Suc)
    have ih: "map snd (spawnLog ticks ?w) =
        [Suc (autoRippleIndex w) ..< Suc (autoRippleIndex w) + length (spawnLog ticks ?w)]"
      and ih2: "autoRippleIndex (autoTicks ticks ?w) = Suc (autoRippleIndex w) + length (spawnLog ticks ?w)"
      using Cons.IH [of ?w] unfolding s by blast+
    have l: "spawnLog (tk # ticks) w = (t, autoRippleIndex w) # spawnLog ticks ?w"
      using False by (simp add: tk)
    show ?thesis unfolding l using ih ih2 u by (simp add: tk del: upt_Suc)
  qed
qed

lemma maybeSpawn_count:
  "length (ripples (autoTicks ticks w)) = length (ripples w) + length (spawnLog ticks w)"
proof (induction ticks arbitrary: w)
  case Nil
  then show ?case by simp
next
  case (Cons tk ticks)
  obtain t c sm qs where tk: "tk = (t, c, sm, qs)" by (cases tk)
  show ?case
    using Cons.IH [of "maybeSpawnAutoRipple t c sm qs w"]
    by (simp add: tk) (simp add: maybeSpawnAutoRipple_def Let_def createRippleFromWorld_def)
qed

lemma autoTicks_spaced:
  "qs \<noteq> [] \<Longrightarrow> sorted_wrt (\<lambda>a b. 2000 \<le> b - a) (lastAutoRippleTime w # ts) \<Longrightarrow>
   ripples (autoTicks (map (\<lambda>t. (t, True, sm, qs)) ts) w) =
     ripples w @
     map (\<lambda>k. newRipple (quakeBaseX (qs ! ((autoRippleIndex w + k) mod length qs)))
                         (quakeBaseY (qs ! ((autoRippleIndex w + k) mod length qs)))
                         (mag (qs ! ((autoRippleIndex w + k) mod length qs)))
                         (depth (qs ! ((autoRippleIndex w + k) mod length qs))) sm True)
       [0..<length ts]"
proof (induction ts arbitrary: w)
  case Nil
  then show ?case by simp
next
  case (Cons t ts)
  let ?w = "maybeSpawnAutoRipple t True sm qs w"
  have g: "2000 \<le> t - lastAutoRippleTime w" using Cons.prems(2) by simp
  have w': "?w = \<lparr> ripples = ripples w @
            [newRipple (quakeBaseX (qs ! (autoRippleIndex w mod length qs)))
                       (quakeBaseY (qs ! (autoRippleIndex w mod length qs)))
                       (mag (qs ! (autoRippleIndex w mod length qs)))
                       (depth (qs ! (autoRippleIndex w mod length qs))) sm True],
          autoRippleIndex = autoRippleIndex w + 1,
          lastAutoRippleTime = t \<rparr>"
    using maybeSpawn_cases [of True qs t w sm] Cons.prems(1) g by simp
  have s: "sorted_wrt (\<lambda>a b. 2000 \<le> b - a) (lastAutoRippleTime ?w # ts)"
    using Cons.prems(2) by (simp add: w')
  show ?case
    using Cons.IH [OF Cons.prems(1) s]
    by (simp add: w' map_upt_Suc del: upt_Suc)
qed

text \<open>Every ripple that \<open>newRipple\<close> builds: its fields, bounded.\<close>

lemma newRipple_bounds:
  "80 \<le> maxRadius (newRipple bx by m d s a)" "maxRadius (newRipple bx by m d s a) \<le> 300"
  "radius (newRipple bx by m d s a) = 0" "opacity (newRipple bx by m d s a) = 1"
  "0 < s \<Longrightarrow> 0 < speed (newRipple bx by m d s a)"
  "0 \<le> s \<Longrightarrow> 0 \<le> speed (newRipple bx by m d s a)"
proof -
  define mf where "mf = (max 3 (min 9 m) - 3) / 6"
  define df where "df = 1 - max 0 (min 700 d) / 700"
  have mf: "0 \<le> mf" "mf \<le> 1" by (simp_all add: mf_def)
  have df: "0 \<le> df" "df \<le> 1" by (simp_all add: df_def)
  have mr: "maxRadius (newRipple bx by m d s a) = 80 + 220 * mf * (0.4 + 0.6 * df)"
    by (simp add: newRipple_def Let_def mf_def df_def)
  have sp: "speed (newRipple bx by m d s a) = 1.1 * s * (0.6 + 0.8 * mf)"
    by (simp add: newRipple_def Let_def mf_def)
  have p: "0 \<le> mf * (0.4 + 0.6 * df)" using mf df by simp
  have "mf * (0.4 + 0.6 * df) \<le> 1 * 1"
    using mf df by (intro mult_mono) simp_all
  then show "80 \<le> maxRadius (newRipple bx by m d s a)" "maxRadius (newRipple bx by m d s a) \<le> 300"
    using p by (simp_all add: mr)
  show "radius (newRipple bx by m d s a) = 0" "opacity (newRipple bx by m d s a) = 1"
    by (simp_all add: newRipple_def Let_def)
  have q: "0 < 0.6 + 0.8 * mf" using mf by simp
  show "0 < s \<Longrightarrow> 0 < speed (newRipple bx by m d s a)" using q by (simp add: sp)
  show "0 \<le> s \<Longrightarrow> 0 \<le> speed (newRipple bx by m d s a)" using q by (simp add: sp)
qed

text \<open>
  The invariant of the store over any interleaving: a ripple that survived a frame failed
  the test of the loop, a new ripple has radius 0 and opacity 1, and a ripple whose speed
  is not negative never gets a negative radius.
\<close>

lemma run_invariant:
  "\<forall>r \<in> set rs. radius r < maxRadius r \<and> 0 < opacity r \<and> (0 \<le> speed r \<longrightarrow> 0 \<le> radius r) \<Longrightarrow>
   \<exists>st. run acts rs = Inr st \<and>
     (\<forall>r \<in> set st. radius r < maxRadius r \<and> 0 < opacity r \<and> (0 \<le> speed r \<longrightarrow> 0 \<le> radius r))"
proof (induction acts rs rule: run.induct)
  case (1 rs)
  then show ?case by simp
next
  case (2 bX bY m d s a acts rs)
  have "radius (newRipple bX bY m d s a) < maxRadius (newRipple bX bY m d s a)"
    using newRipple_bounds(1) [of bX bY m d s a] by (simp add: newRipple_bounds(3))
  then show ?case using 2 by (simp add: createRippleFromWorld_def newRipple_bounds)
next
  case (3 acts rs)
  have "\<forall>r \<in> set (filter (\<lambda>r. \<not> expired r) (map advanceRipple rs)).
      radius r < maxRadius r \<and> 0 < opacity r \<and> (0 \<le> speed r \<longrightarrow> 0 \<le> radius r)"
    using 3(2) by (auto simp: expired_def advanceRipple_eq)
  then show ?case using 3(1) by (simp add: advanceAndPrune_eq)
qed

subsection \<open>Facts about rounding\<close>

































subsection \<open>Facts about the projections on doubles\<close>



subsection \<open>Facts about the ripple loop on doubles\<close>


















subsection \<open>The claims\<close>




text \<open>
  Claim C4. For every offset, negative ones too, and every positive canvas width \<open>w\<close>, the
  normalized offset lies in the interval from 0 (included) to \<open>w\<close> (excluded); it is the
  offset minus the largest whole multiple of \<open>w\<close> below it; and the offset -5 on a canvas
  of width 800 is normalized to 795.
\<close>

theorem normalizeOffset_in_range:
  "0 < w \<Longrightarrow>
     0 \<le> normalizeOffset x w \<and> normalizeOffset x w < w \<and>
     normalizeOffset x w = x - w * of_int \<lfloor>x / w\<rfloor> \<and>
     normalizeOffset (-5) 800 = 795"
  using normalizeOffset_range [of w x] normalizeOffset_floor [of w x]
    normalizeOffset_floor [of 800 "-5"]
  by simp

theorem normalizeOffset_in_range_witness:
  "(0::real) < 800 \<and> 0 \<le> normalizeOffset (-1605.5) 800 \<and> normalizeOffset (-1605.5) 800 < 800 \<and>
   normalizeOffset (-1605.5) 800 = 794.5"
proof -
  have h: "(0::real) < 800" by simp
  have f: "\<lfloor>- 16055 / 8000 :: real\<rfloor> = -3" by (simp add: floor_eq_iff)
  show ?thesis using h f normalizeOffset_in_range [OF h, of "-1605.5"] by simp
qed




text \<open>
  Claim C8, as the script has it. A ripple spawned with magnitude 9 and depth 0 has a
  strictly greater largest radius than one spawned with magnitude 3 and depth 700, for
  every speed multiplier; its speed is strictly greater exactly when the common speed
  multiplier is positive.
\<close>

theorem strong_ripple_larger_and_faster:
  "maxRadius (newRipple bx' by' 3 700 s a') < maxRadius (newRipple bx by 9 0 s a) \<and>
   maxRadius (newRipple bx' by' 3 700 s a') = 80 \<and> maxRadius (newRipple bx by 9 0 s a) = 300 \<and>
   ((speed (newRipple bx' by' 3 700 s a') < speed (newRipple bx by 9 0 s a)) = (0 < s))"
  by (simp add: newRipple_def Let_def)

theorem strong_ripple_larger_and_faster_witness:
  "maxRadius (newRipple 10 20 3 700 2 True) < maxRadius (newRipple 30 40 9 0 2 False) \<and>
   speed (newRipple 10 20 3 700 2 True) < speed (newRipple 30 40 9 0 2 False)"
  using strong_ripple_larger_and_faster [of 10 20 2 True 30 40 False] by simp

text \<open>
  With the speed multiplier 0 the two ripples of claim C8 have the same speed, 0: the
  speed of the strong one is not strictly greater.
\<close>

theorem strong_ripple_not_faster_at_zero:
  "\<not> speed (newRipple 0 0 3 700 0 False) < speed (newRipple 0 0 9 0 0 False)"
  by (simp add: newRipple_def Let_def)

text \<open>
  Claim C9. A call with magnitude 15 leaves the store exactly as the call with magnitude 9
  and otherwise the same arguments does, so the two ripples agree in every field; and so
  do a call with depth -10 and the call with depth 0.
\<close>

theorem createRippleFromWorld_clamp_boundaries:
  "createRippleFromWorld bx by 15 d s a rs = createRippleFromWorld bx by 9 d s a rs \<and>
   createRippleFromWorld bx by m (-10) s a rs = createRippleFromWorld bx by m 0 s a rs"
  by (simp add: createRippleFromWorld_def newRipple_def Let_def)

theorem createRippleFromWorld_clamp_boundaries_witness:
  "createRippleFromWorld 1 2 15 (-10) 1 False [] = createRippleFromWorld 1 2 9 0 1 False []"
  using createRippleFromWorld_clamp_boundaries [of 1 2 "-10" 1 False "[]" 9]
    createRippleFromWorld_clamp_boundaries [of 1 2 "-10" 1 False "[]" 15]
  by simp

text \<open>
  Claim C3. A call of \<open>maybeSpawnAutoRipple\<close> changes nothing when the checkbox is off,
  when the quake list is empty, or when less than 2000 ms lie between the timestamp and
  the time of the last spawn. Otherwise it appends exactly one ripple, built from the
  quake at index \<open>autoRippleIndex mod length\<close> with \<open>fromAuto = true\<close>, adds 1 to the
  cursor and sets the time of the last spawn to the timestamp. Consequently, in any
  sequence of calls, whatever their timestamps, checkbox states and quake lists: any two
  spawns, and the first spawn and the time of the last spawn before the sequence, are at
  least 2000 ms apart; the cursor values at the spawns are consecutive; every spawn adds
  one ripple. With a fixed non-empty quake list and calls at least 2000 ms apart, every
  call spawns, and the \<open>k\<close>-th ripple comes from the quake at index
  \<open>(autoRippleIndex + k) mod length\<close>: the cursor runs through the list again and again.
\<close>

theorem maybeSpawnAutoRipple_throttle:
  "(\<not> checked \<or> qs = [] \<or> t - lastAutoRippleTime w < 2000 \<longrightarrow>
      maybeSpawnAutoRipple t checked sm qs w = w) \<and>
   (checked \<and> qs \<noteq> [] \<and> 2000 \<le> t - lastAutoRippleTime w \<longrightarrow>
      maybeSpawnAutoRipple t checked sm qs w =
        \<lparr> ripples = ripples w @
            [newRipple (quakeBaseX (qs ! (autoRippleIndex w mod length qs)))
                       (quakeBaseY (qs ! (autoRippleIndex w mod length qs)))
                       (mag (qs ! (autoRippleIndex w mod length qs)))
                       (depth (qs ! (autoRippleIndex w mod length qs))) sm True],
          autoRippleIndex = autoRippleIndex w + 1,
          lastAutoRippleTime = t \<rparr>) \<and>
   sorted_wrt (\<lambda>a b. 2000 \<le> b - a) (lastAutoRippleTime w # map fst (spawnLog ticks w)) \<and>
   map snd (spawnLog ticks w) =
     [autoRippleIndex w ..< autoRippleIndex w + length (spawnLog ticks w)] \<and>
   autoRippleIndex (autoTicks ticks w) = autoRippleIndex w + length (spawnLog ticks w) \<and>
   length (ripples (autoTicks ticks w)) = length (ripples w) + length (spawnLog ticks w) \<and>
   (qs \<noteq> [] \<and> sorted_wrt (\<lambda>a b. 2000 \<le> b - a) (lastAutoRippleTime w # ts) \<longrightarrow>
      ripples (autoTicks (map (\<lambda>t. (t, True, sm, qs)) ts) w) =
        ripples w @
        map (\<lambda>k. newRipple (quakeBaseX (qs ! ((autoRippleIndex w + k) mod length qs)))
                            (quakeBaseY (qs ! ((autoRippleIndex w + k) mod length qs)))
                            (mag (qs ! ((autoRippleIndex w + k) mod length qs)))
                            (depth (qs ! ((autoRippleIndex w + k) mod length qs))) sm True)
          [0..<length ts])"
  using maybeSpawn_cases [of checked qs t w sm] spawnLog_spaced [of w ticks]
    spawnLog_cursor [of ticks w] maybeSpawn_count [of ticks w] autoTicks_spaced [of qs w ts sm]
  by blast

text \<open>
  Instances of C3 on the three example quakes, from the initial state: no spawn at 500 ms,
  with the checkbox off, or with an empty list; a spawn from the first quake at 2500 ms;
  and four calls 2000 ms apart, the fourth of which is back at the first quake.
\<close>

theorem maybeSpawnAutoRipple_throttle_witness:
  "maybeSpawnAutoRipple 500 True 1 exampleQuakes initialWorld = initialWorld \<and>
   maybeSpawnAutoRipple 2500 False 1 exampleQuakes initialWorld = initialWorld \<and>
   maybeSpawnAutoRipple 2500 True 1 [] initialWorld = initialWorld \<and>
   maybeSpawnAutoRipple 2500 True 1 exampleQuakes initialWorld =
     \<lparr> ripples = [newRipple 200 100 3 10 1 True], autoRippleIndex = 1,
       lastAutoRippleTime = 2500 \<rparr> \<and>
   ripples (autoTicks [(2000, True, 1, exampleQuakes), (4000, True, 1, exampleQuakes),
                       (6000, True, 1, exampleQuakes), (8000, True, 1, exampleQuakes)]
              initialWorld) =
     [newRipple 200 100 3 10 1 True, newRipple 400 200 6 350 1 True,
      newRipple 600 300 9 700 1 True, newRipple 200 100 3 10 1 True]"
proof -
  have i: "ripples initialWorld = []" "autoRippleIndex initialWorld = 0"
    "lastAutoRippleTime initialWorld = 0"
    by (simp_all add: initialWorld_def)
  have n: "exampleQuakes \<noteq> []" "length exampleQuakes = 3"
    by (simp_all add: exampleQuakes_def)
  have q: "quakeBaseX (exampleQuakes ! 0) = 200" "quakeBaseY (exampleQuakes ! 0) = 100"
    "mag (exampleQuakes ! 0) = 3" "depth (exampleQuakes ! 0) = 10"
    "quakeBaseX (exampleQuakes ! Suc 0) = 400" "quakeBaseY (exampleQuakes ! Suc 0) = 200"
    "mag (exampleQuakes ! Suc 0) = 6" "depth (exampleQuakes ! Suc 0) = 350"
    "quakeBaseX (exampleQuakes ! 2) = 600" "quakeBaseY (exampleQuakes ! 2) = 300"
    "mag (exampleQuakes ! 2) = 9" "depth (exampleQuakes ! 2) = 700"
    by (simp_all add: exampleQuakes_def)
  have u: "[0..<length [2000, 4000, 6000, 8000 :: real]] = [0, 1, 2, 3]"
    by (simp add: upt_rec)
  have 1: "maybeSpawnAutoRipple 500 True 1 exampleQuakes initialWorld = initialWorld"
    using maybeSpawnAutoRipple_throttle
      [where checked = True and qs = exampleQuakes and t = 500 and w = initialWorld
         and sm = 1, THEN conjunct1]
    by (simp add: i)
  have 2: "maybeSpawnAutoRipple 2500 False 1 exampleQuakes initialWorld = initialWorld"
    using maybeSpawnAutoRipple_throttle
      [where checked = False and qs = exampleQuakes and t = 2500 and w = initialWorld
         and sm = 1, THEN conjunct1]
    by simp
  have 3: "maybeSpawnAutoRipple 2500 True 1 [] initialWorld = initialWorld"
    using maybeSpawnAutoRipple_throttle
      [where checked = True and qs = "[]" and t = 2500 and w = initialWorld
         and sm = 1, THEN conjunct1]
    by simp
  have 4: "maybeSpawnAutoRipple 2500 True 1 exampleQuakes initialWorld =
     \<lparr> ripples = [newRipple 200 100 3 10 1 True], autoRippleIndex = 1,
       lastAutoRippleTime = 2500 \<rparr>"
    using maybeSpawnAutoRipple_throttle
      [where checked = True and qs = exampleQuakes and t = 2500 and w = initialWorld
         and sm = 1, THEN conjunct2, THEN conjunct1]
    by (simp add: i n q)
  have 5: "ripples (autoTicks (map (\<lambda>t. (t, True, 1, exampleQuakes)) [2000, 4000, 6000, 8000])
              initialWorld) =
     [newRipple 200 100 3 10 1 True, newRipple 400 200 6 350 1 True,
      newRipple 600 300 9 700 1 True, newRipple 200 100 3 10 1 True]"
    using maybeSpawnAutoRipple_throttle
      [where qs = exampleQuakes and w = initialWorld and sm = 1
         and ts = "[2000, 4000, 6000, 8000]",
       THEN conjunct2, THEN conjunct2, THEN conjunct2, THEN conjunct2, THEN conjunct2,
       THEN conjunct2]
    unfolding u by (simp add: i n q del: autoTicks.simps)
  from 1 2 3 4 5 show ?thesis by simp
qed




text \<open>
  Claim C7, as the script has it. \<open>lastAutoRippleTime\<close> starts at 0, so with automatic
  ripples switched on, three quakes in the list and calls at the timestamps 0, 500, 2100
  and 4300 from the initial state, the call at 0 changes nothing, and spawns happen exactly
  at 2100 and at 4300, from the quakes 0 and 1 in this order.
\<close>

theorem four_ticks_spawn_twice:
  "maybeSpawnAutoRipple 0 True sm [q0, q1, q2] initialWorld = initialWorld \<and>
   spawnLog [(0, True, sm, [q0, q1, q2]), (500, True, sm, [q0, q1, q2]),
             (2100, True, sm, [q0, q1, q2]), (4300, True, sm, [q0, q1, q2])] initialWorld =
     [(2100, 0), (4300, 1)] \<and>
   autoTicks [(0, True, sm, [q0, q1, q2]), (500, True, sm, [q0, q1, q2]),
             (2100, True, sm, [q0, q1, q2]), (4300, True, sm, [q0, q1, q2])] initialWorld =
     \<lparr> ripples = [newRipple (quakeBaseX q0) (quakeBaseY q0) (mag q0) (depth q0) sm True,
                  newRipple (quakeBaseX q1) (quakeBaseY q1) (mag q1) (depth q1) sm True],
       autoRippleIndex = 2, lastAutoRippleTime = 4300 \<rparr>"
  by (simp add: maybeSpawnAutoRipple_def initialWorld_def AUTO_RIPPLE_INTERVAL_def Let_def
      createRippleFromWorld_def)

text \<open>The instance of C7 on the three example quakes.\<close>

theorem four_ticks_spawn_twice_witness:
  "spawnLog [(0, True, 1, exampleQuakes), (500, True, 1, exampleQuakes),
             (2100, True, 1, exampleQuakes), (4300, True, 1, exampleQuakes)] initialWorld =
     [(2100, 0), (4300, 1)] \<and>
   ripples (autoTicks [(0, True, 1, exampleQuakes), (500, True, 1, exampleQuakes),
             (2100, True, 1, exampleQuakes), (4300, True, 1, exampleQuakes)] initialWorld) =
     [newRipple 200 100 3 10 1 True, newRipple 400 200 6 350 1 True]"
proof -
  have e: "[exampleQuakes ! 0, exampleQuakes ! 1, exampleQuakes ! 2] = exampleQuakes"
    by (simp add: exampleQuakes_def)
  have q: "quakeBaseX (exampleQuakes ! 0) = 200" "quakeBaseY (exampleQuakes ! 0) = 100"
    "mag (exampleQuakes ! 0) = 3" "depth (exampleQuakes ! 0) = 10"
    "quakeBaseX (exampleQuakes ! 1) = 400" "quakeBaseY (exampleQuakes ! 1) = 200"
    "mag (exampleQuakes ! 1) = 6" "depth (exampleQuakes ! 1) = 350"
    by (simp_all add: exampleQuakes_def)
  show ?thesis
    using four_ticks_spawn_twice
      [of 1 "exampleQuakes ! 0" "exampleQuakes ! 1" "exampleQuakes ! 2"]
    unfolding e q by (simp del: spawnLog.simps autoTicks.simps)
qed

text \<open>
  Against C7 as it is stated: on the three example quakes the call at timestamp 0 does not
  spawn, and the spawns are not those at 0, 2100 and 4300 with the cursor at 0, 1 and 2.
\<close>

theorem first_tick_does_not_spawn:
  "maybeSpawnAutoRipple 0 True 1 exampleQuakes initialWorld = initialWorld \<and>
   spawnLog [(0, True, 1, exampleQuakes), (500, True, 1, exampleQuakes),
             (2100, True, 1, exampleQuakes), (4300, True, 1, exampleQuakes)] initialWorld \<noteq>
     [(0, 0), (2100, 1), (4300, 2)]"
  by (simp add: maybeSpawnAutoRipple_def initialWorld_def AUTO_RIPPLE_INTERVAL_def Let_def
      exampleQuakes_def createRippleFromWorld_def)

text \<open>
  Claim C10, as the script has it. After any interleaving of spawns and completed ripple
  loops from the empty store, every ripple in the store has \<open>radius < maxRadius\<close> and
  \<open>opacity > 0\<close>, and \<open>0 \<le> radius\<close> unless its own speed is negative; the speed of a
  ripple is negative exactly when it was spawned with a negative speed multiplier.
\<close>

theorem store_invariant:
  "(\<exists>st. run acts [] = Inr st \<and>
     (\<forall>r \<in> set st. radius r < maxRadius r \<and> 0 < opacity r \<and>
        (0 \<le> speed r \<longrightarrow> 0 \<le> radius r))) \<and>
   ((0 \<le> speed (newRipple bx by m d s a)) = (0 \<le> s))"
proof -
  have 1: "\<exists>st. run acts [] = Inr st \<and>
     (\<forall>r \<in> set st. radius r < maxRadius r \<and> 0 < opacity r \<and>
        (0 \<le> speed r \<longrightarrow> 0 \<le> radius r))"
    using run_invariant [of "[]" acts] by simp
  define mf where "mf = (max 3 (min 9 m) - 3) / 6"
  have mf: "0 \<le> mf" by (simp add: mf_def)
  have sp: "speed (newRipple bx by m d s a) = 1.1 * s * (0.6 + 0.8 * mf)"
    by (simp add: newRipple_def Let_def mf_def)
  have "0 < 1.1 * (0.6 + 0.8 * mf)" using mf by simp
  then have 2: "(0 \<le> speed (newRipple bx by m d s a)) = (0 \<le> s)"
    unfolding sp by (simp add: zero_le_mult_iff mult_le_0_iff)
  from 1 2 show ?thesis ..
qed

text \<open>
  An instance of C10: a spawn with speed multiplier -1, a spawn with speed multiplier 1,
  then one frame. The second ripple has a radius that is not negative, whatever the first.
\<close>

theorem store_invariant_witness:
  "run [Spawn 0 0 3 700 (-1) False, Spawn 0 0 3 700 1 False, Frame] [] =
     Inr [\<lparr> baseX = 0, baseY = 0, radius = - (33 / 50), maxRadius = 80, speed = - (33 / 50),
            lineWidth = 2, baseColor = ''#22d3ee'', opacity = 4033 / 4000,
            fromAuto = False \<rparr>,
          \<lparr> baseX = 0, baseY = 0, radius = 33 / 50, maxRadius = 80, speed = 33 / 50,
            lineWidth = 2, baseColor = ''#22d3ee'', opacity = 3967 / 4000,
            fromAuto = False \<rparr>] \<and>
   (0::real) \<le> 33 / 50 \<and> (33 / 50 :: real) < 80 \<and> (0::real) < 3967 / 4000"
  using store_invariant [of "[Spawn 0 0 3 700 (-1) False, Spawn 0 0 3 700 1 False, Frame]"]
  by (simp add: advanceAndPrune_eq createRippleFromWorld_def newRipple_def Let_def
      advanceRipple_eq expired_def)

text \<open>
  Against C10 as it is stated: the speed multiplier is not clamped, and after a spawn with
  speed multiplier -1 and one frame the store holds a ripple of negative radius.
\<close>

theorem negative_speed_negative_radius:
  "run [Spawn 0 0 3 0 (-1) False, Frame] [] =
     Inr [\<lparr> baseX = 0, baseY = 0, radius = - (33 / 50), maxRadius = 80,
            speed = - (33 / 50), lineWidth = 2, baseColor = ''#22d3ee'',
            opacity = 4033 / 4000, fromAuto = False \<rparr>] \<and>
   radius \<lparr> baseX = 0, baseY = 0, radius = - (33 / 50), maxRadius = 80,
            speed = - (33 / 50), lineWidth = 2, baseColor = ''#22d3ee'',
            opacity = 4033 / 4000, fromAuto = False \<rparr> < 0"
  by (simp add: advanceAndPrune_eq createRippleFromWorld_def newRipple_def Let_def
      advanceRipple_eq expired_def)

end
